theory Spec2Isabelle
  imports Main "HOL-Library.Word" "HOL-Library.Char_ord"
begin

unbundle bit_operations_syntax

section \<open>The multitool command-line utility (cmd/multitool/multitool.go)\<close>

text \<open>
  Go strings are byte sequences and are modelled as \<^typ>\<open>string\<close> (a list of 8-bit
  characters); \<open>[]byte\<close> values are lists of 8-bit words; \<open>uint64\<close> and \<open>int64\<close> are
  64-bit words (\<open>int64\<close> read through \<^const>\<open>sint\<close>).

  A run of the program ends in one of three ways: it returns from \<open>main\<close> (exit status 0),
  it calls \<open>os.Exit(1)\<close> from \<open>errorf\<close>, or the Go runtime panics (exit status 2).  The
  text carried by the first two is everything the run wrote to standard output.
\<close>

type_synonym byte = "8 word"
type_synonym uint64 = "64 word"
type_synonym int64 = "64 word"

datatype outcome = Exit0 string | Exit1 string | Panic

fun status :: "outcome \<Rightarrow> nat" where
  "status (Exit0 out) = 0"
| "status (Exit1 out) = 1"
| "status Panic = 2"

fun stdout :: "outcome \<Rightarrow> string" where
  "stdout (Exit0 out) = out"
| "stdout (Exit1 out) = out"
| "stdout Panic = []"

text \<open>\<open>fmt.Println(s)\<close> writes \<open>s\<close> and a newline.\<close>

definition Println :: "string \<Rightarrow> string" where
  "Println s = s @ [CHR 0x0A]"

text \<open>
  \<open>errorf(msg, args...)\<close> prints \<open>fmt.Sprintf(msg, args...)\<close> on a line and exits with
  status 1.  The model takes the formatted message; every call site builds it by
  substituting its \<open>%s\<close> arguments.
\<close>

definition errorf :: "string \<Rightarrow> outcome" where
  "errorf msg = Exit1 (Println msg)"

text \<open>
  The functions of Go's standard library that the tool calls (\<open>encoding/hex\<close>,
  \<open>strconv\<close>, \<open>encoding/binary\<close>, \<open>strings\<close> and the printing of \<open>fmt\<close>) are not part
  of the repository.  The next subsections model them after the library's source of the
  time the tool was written, with their loops, checks and error values, for the arguments
  the tool passes to them (base 10, bit sizes 64 and 32).
\<close>

subsection \<open>Go standard library: encoding/hex\<close>

text \<open>
  \<open>hex.DecodeString\<close> rejects a source of odd length before it looks at any byte, and
  otherwise reports the first byte that is not a hex digit.
\<close>

definition byte_of_char :: "char \<Rightarrow> byte" where
  "byte_of_char c = word_of_nat (of_char c)"

definition char_of_byte :: "byte \<Rightarrow> char" where
  "char_of_byte b = char_of (unat b)"

definition hextable :: string where
  "hextable = ''0123456789abcdef''"

definition EncodeToString :: "byte list \<Rightarrow> string" where
  "EncodeToString src =
     concat (map (\<lambda>v. [hextable ! unat (drop_bit 4 v), hextable ! unat (v AND 0x0f)]) src)"

definition fromHexChar :: "char \<Rightarrow> byte option" where
  "fromHexChar c =
     (if CHR ''0'' \<le> c \<and> c \<le> CHR ''9'' then Some (byte_of_char c - byte_of_char CHR ''0'')
      else if CHR ''a'' \<le> c \<and> c \<le> CHR ''f'' then Some (byte_of_char c - byte_of_char CHR ''a'' + 10)
      else if CHR ''A'' \<le> c \<and> c \<le> CHR ''F'' then Some (byte_of_char c - byte_of_char CHR ''A'' + 10)
      else None)"

datatype hex_error = ErrLength | InvalidByteError char

text \<open>The loop of \<open>hex.Decode\<close> over the pairs of an even-length source.\<close>

fun Decode :: "string \<Rightarrow> hex_error + byte list" where
  "Decode [] = Inr []"
| "Decode [c] = Inl ErrLength"
| "Decode (c1 # c2 # rest) =
     (case fromHexChar c1 of
        None \<Rightarrow> Inl (InvalidByteError c1)
      | Some a \<Rightarrow>
          (case fromHexChar c2 of
             None \<Rightarrow> Inl (InvalidByteError c2)
           | Some b \<Rightarrow>
               (case Decode rest of
                  Inl e \<Rightarrow> Inl e
                | Inr dst \<Rightarrow> Inr ((push_bit 4 a OR b) # dst))))"

definition DecodeString :: "string \<Rightarrow> hex_error + byte list" where
  "DecodeString s = (if odd (length s) then Inl ErrLength else Decode s)"

text \<open>
  The text of a hex error, as \<open>%s\<close> prints it.  \<open>InvalidByteError\<close> formats its byte
  with \<open>%#U\<close>: \<open>U+\<close>, four upper-case hex digits and, for a printable rune, the quoted
  rune in UTF-8.
\<close>

definition upperhex :: string where
  "upperhex = ''0123456789ABCDEF''"

definition IsPrint :: "nat \<Rightarrow> bool" where
  "IsPrint r = (if 0x20 \<le> r \<and> r < 0x7F then True
                else if 0xA1 \<le> r then r \<noteq> 0xAD
                else False)"

definition EncodeRune :: "nat \<Rightarrow> string" where
  "EncodeRune r = (if r < 0x80 then [char_of r]
                   else [char_of (0xC0 + r div 64), char_of (0x80 + r mod 64)])"

definition fmtUnicode :: "char \<Rightarrow> string" where
  "fmtUnicode c =
     (let r = (of_char c :: nat) in
      ''U+00'' @ [upperhex ! (r div 16), upperhex ! (r mod 16)] @
      (if IsPrint r then '' '' @ [CHR 0x27] @ EncodeRune r @ [CHR 0x27] else []))"

fun hex_Error :: "hex_error \<Rightarrow> string" where
  "hex_Error ErrLength = ''encoding/hex: odd length hex string''"
| "hex_Error (InvalidByteError c) = ''encoding/hex: invalid byte: '' @ fmtUnicode c"

subsection \<open>Go standard library: strconv\<close>

datatype num_error = ErrSyntax | ErrRange

text \<open>
  \<open>strconv.ParseUint(s, 10, bitSize)\<close>: the digit loop with its two overflow checks.
  The result is the pair the Go function returns: the number and the error, if any.
\<close>

definition cutoff64 :: "uint64" where
  "cutoff64 = (- 1) div 10 + 1"

fun ParseUint_loop :: "uint64 \<Rightarrow> uint64 \<Rightarrow> string \<Rightarrow> uint64 \<times> num_error option" where
  "ParseUint_loop maxVal n [] = (n, None)"
| "ParseUint_loop maxVal n (d # s) =
     (if \<not> (CHR ''0'' \<le> d \<and> d \<le> CHR ''9'') then (0, Some ErrSyntax)
      else
        let v = byte_of_char d - byte_of_char CHR ''0'' in
        if n \<ge> cutoff64 then (- 1, Some ErrRange)
        else
          let n' = n * 10; n1 = n' + ucast v in
          if n1 < n' \<or> n1 > maxVal then (- 1, Some ErrRange)
          else ParseUint_loop maxVal n1 s)"

definition ParseUint :: "string \<Rightarrow> nat \<Rightarrow> uint64 \<times> num_error option" where
  "ParseUint s bitSize =
     (if length s < 1 then (0, Some ErrSyntax)
      else ParseUint_loop (push_bit bitSize 1 - 1) 0 s)"

text \<open>\<open>strconv.ParseInt(s, 10, bitSize)\<close>.\<close>

definition ParseInt :: "string \<Rightarrow> nat \<Rightarrow> int64 \<times> num_error option" where
  "ParseInt s0 bitSize =
     (if length s0 = 0 then (0, Some ErrSyntax)
      else
        let neg = (hd s0 = CHR ''-'');
            s = (if hd s0 = CHR ''+'' \<or> hd s0 = CHR ''-'' then tl s0 else s0);
            (un, err) = ParseUint s bitSize
        in
        if err \<noteq> None \<and> err \<noteq> Some ErrRange then (0, err)
        else
          let cutoff = (push_bit (bitSize - 1) 1 :: uint64) in
          if \<not> neg \<and> un \<ge> cutoff then (cutoff - 1, Some ErrRange)
          else if neg \<and> un > cutoff then (- cutoff, Some ErrRange)
          else (if neg then - un else un, None))"

text \<open>Decimal text of an unsigned and of a signed 64-bit integer, as \<open>fmt.Println\<close> prints it.\<close>

fun FormatNat :: "nat \<Rightarrow> string" where
  "FormatNat n = (if n < 10 then [char_of (48 + n)]
                  else FormatNat (n div 10) @ [char_of (48 + n mod 10)])"

declare FormatNat.simps [simp del]

definition FormatUint :: "uint64 \<Rightarrow> string" where
  "FormatUint u = FormatNat (unat u)"

definition FormatInt :: "int64 \<Rightarrow> string" where
  "FormatInt i = (if i <s 0 then ''-'' @ FormatUint (- i) else FormatUint i)"

subsection \<open>Go standard library: encoding/binary varints\<close>

text \<open>
  \<open>binary.PutUvarint(buf, x)\<close> writes into \<open>buf\<close> and returns the number of bytes
  written; an index outside \<open>buf\<close> panics (\<open>None\<close>).
\<close>

function PutUvarint_loop :: "byte list \<Rightarrow> nat \<Rightarrow> uint64 \<Rightarrow> (byte list \<times> nat) option" where
  "PutUvarint_loop buf i x =
     (if x \<ge> 0x80 then
        (if i < length buf
         then PutUvarint_loop (buf[i := ucast x OR 0x80]) (i + 1) (drop_bit 7 x)
         else None)
      else
        (if i < length buf then Some (buf[i := ucast x], i + 1) else None))"
  by pat_completeness auto
termination
proof (relation "measure (\<lambda>(buf, i, x). unat x)")
  fix buf :: "byte list" and i :: nat and x :: uint64
  assume "0x80 \<le> x"
  then have "0 < unat x"
    by (simp add: word_le_nat_alt)
  moreover have "unat (drop_bit 7 x) = unat x div 2 ^ 7"
    by (simp add: drop_bit_eq_div unat_div)
  ultimately show "((buf[i := ucast x OR 0x80], i + 1, drop_bit 7 x), buf, i, x)
      \<in> measure (\<lambda>(buf, i, x). unat x)"
    by simp
qed simp

declare PutUvarint_loop.simps [simp del]

definition PutUvarint :: "byte list \<Rightarrow> uint64 \<Rightarrow> (byte list \<times> nat) option" where
  "PutUvarint buf x = PutUvarint_loop buf 0 x"

definition PutVarint :: "byte list \<Rightarrow> int64 \<Rightarrow> (byte list \<times> nat) option" where
  "PutVarint buf x =
     (let ux = push_bit 1 x;
          ux = (if x <s 0 then NOT ux else ux)
      in PutUvarint buf ux)"

text \<open>
  \<open>binary.Uvarint(buf)\<close> returns the value and the number of bytes read; the count is 0
  when the buffer ends early and negative on overflow.
\<close>

fun Uvarint_loop :: "byte list \<Rightarrow> nat \<Rightarrow> uint64 \<Rightarrow> nat \<Rightarrow> uint64 \<times> int" where
  "Uvarint_loop [] i x s = (0, 0)"
| "Uvarint_loop (b # buf) i x s =
     (if b < 0x80 then
        (if i > 9 \<or> i = 9 \<and> b > 1 then (0, - (int i + 1))
         else (x OR push_bit s (ucast b), int i + 1))
      else Uvarint_loop buf (i + 1) (x OR push_bit s (ucast (b AND 0x7f))) (s + 7))"

definition Uvarint :: "byte list \<Rightarrow> uint64 \<times> int" where
  "Uvarint buf = Uvarint_loop buf 0 0 0"

definition Varint :: "byte list \<Rightarrow> int64 \<times> int" where
  "Varint buf =
     (let (ux, n) = Uvarint buf;
          x = drop_bit 1 ux;
          x = (if ux AND 1 \<noteq> 0 then NOT x else x)
      in (x, n))"

subsection \<open>Go standard library: strings\<close>

definition HasPrefix :: "string \<Rightarrow> string \<Rightarrow> bool" where
  "HasPrefix s prefix = (length s \<ge> length prefix \<and> take (length prefix) s = prefix)"

definition TrimPrefix :: "string \<Rightarrow> string \<Rightarrow> string" where
  "TrimPrefix s prefix = (if HasPrefix s prefix then drop (length prefix) s else s)"

subsection \<open>Resolving inputs\<close>

text \<open>
  Standard input is read through \<open>ioutil.ReadAll(stdin)\<close>, where \<open>stdin\<close> is the timed
  reader.  What that call returns is given by the environment: \<open>Inr b\<close> for the bytes read
  up to end of input, \<open>Inl err\<close> for the text of the error it failed with (a timeout
  among them).  Every handler threads \<open>usedStdin\<close> through its calls of \<open>input\<close>, so a
  run makes the call at most once.
\<close>

type_synonym stdin = "string + string"

definition input :: "string list \<Rightarrow> nat \<Rightarrow> bool \<Rightarrow> stdin \<Rightarrow> outcome + string \<times> bool" where
  "input args n usedStdin stdin =
     (if length args > n \<and> args ! n \<noteq> ''-'' then Inr (args ! n, usedStdin)
      else if usedStdin then Inl (errorf ''can use stdin for only one arg'')
      else
        (case stdin of
           Inl err \<Rightarrow> Inl (errorf (''unexpected error: '' @ err))
         | Inr b \<Rightarrow> Inr (b, True)))"

definition mustDecodeHex :: "string \<Rightarrow> outcome + byte list" where
  "mustDecodeHex s =
     (case DecodeString s of
        Inl err \<Rightarrow> Inl (errorf (''error decoding hex: '' @ hex_Error err))
      | Inr res \<Rightarrow> Inr res)"

subsection \<open>The varint and uvarint subcommands\<close>

text \<open>The final \<open>switch mode\<close> of \<open>dovarint\<close>, on the mode and value settled before it.\<close>

definition dovarint_switch :: "string \<Rightarrow> string \<Rightarrow> bool \<Rightarrow> outcome" where
  "dovarint_switch mode val isSigned =
     (if mode = ''-to'' then
        (case ParseInt val 64 of
           (val10, Some err) \<Rightarrow> errorf ''could not parse base 10 int''
         | (val10, None) \<Rightarrow>
             (case (if isSigned then PutVarint (replicate 10 0) val10
                    else PutUvarint (replicate 10 0) val10) of
                None \<Rightarrow> Panic
              | Some (buf, n) \<Rightarrow> Exit0 (Println (EncodeToString (take n buf)))))
      else if mode = ''-from'' then
        (case mustDecodeHex val of
           Inl out \<Rightarrow> out
         | Inr val16 \<Rightarrow>
             if isSigned then
               (let (n, nbytes) = Varint val16 in
                if nbytes \<le> 0 then errorf ''could not parse varint''
                else Exit0 (Println (FormatInt n)))
             else
               (let (n, nbytes) = Uvarint val16 in
                if nbytes \<le> 0 then errorf ''could not parse varint''
                else Exit0 (Println (FormatUint n))))
      else Exit0 [])"

text \<open>The mode inferred from the value when no flag gave it.\<close>

definition infer_mode :: "string \<Rightarrow> string \<times> string" where
  "infer_mode val =
     (if HasPrefix val ''0x'' then (''-from'', TrimPrefix val ''0x'')
      else
        (case ParseInt val 64 of
           (_, None) \<Rightarrow> (''-to'', val)
         | (_, Some err) \<Rightarrow> (''-from'', val)))"

definition dovarint :: "string list \<Rightarrow> bool \<Rightarrow> stdin \<Rightarrow> outcome" where
  "dovarint args0 isSigned stdin =
     (let (mode, args) =
            (if length args0 > 0 \<and> (args0 ! 0 = ''-from'' \<or> args0 ! 0 = ''-to'')
             then (args0 ! 0, drop 1 args0)
             else ([], args0))
      in
      case input args 0 False stdin of
        Inl out \<Rightarrow> out
      | Inr (val, _) \<Rightarrow>
          let (mode, val) = (if mode = [] then infer_mode val else (mode, val))
          in dovarint_switch mode val isSigned)"

definition varint :: "string list \<Rightarrow> stdin \<Rightarrow> outcome" where
  "varint args stdin = dovarint args True stdin"

definition uvarint :: "string list \<Rightarrow> stdin \<Rightarrow> outcome" where
  "uvarint args stdin = dovarint args False stdin"

subsection \<open>The packages the tool calls into\<close>

text \<open>
  The key packages (\<open>chain/crypto/ed25519\<close> and its \<open>hd25519\<close>), the blockchain
  packages (\<open>chain/cos/bc\<close>, \<open>chain/cos/txscript\<close>), the JSON decoder, the pretty
  printer and the hash functions are used through the functions below and are parameters
  of the model: what is proved holds for every implementation of them.  A Go function
  returning \<open>(v, err)\<close> is a function into a sum: \<open>Inr v\<close> when \<open>err\<close> is \<open>nil\<close>,
  \<open>Inl text\<close> with the text of the error otherwise.  \<open>GenerateKey\<close> and \<open>NewXKeys\<close>
  draw on the system's randomness: the fields hold what the call returned in this run.
\<close>

record ('xprv, 'xpub, 'prv, 'pub) keylib =
  XPrvFromString :: "string \<Rightarrow> string + 'xprv"
  XPubFromString :: "string \<Rightarrow> string + 'xpub"
  PrvFromBytes :: "byte list \<Rightarrow> string + 'prv"
  PubFromBytes :: "byte list \<Rightarrow> string + 'pub"
  XPrv_Derive :: "'xprv \<Rightarrow> 32 word list \<Rightarrow> 'xprv"
  XPub_Derive :: "'xpub \<Rightarrow> 32 word list \<Rightarrow> 'xpub"
  XPrv_String :: "'xprv \<Rightarrow> string"
  XPub_String :: "'xpub \<Rightarrow> string"
  XPrv_Public :: "'xprv \<Rightarrow> 'xpub"
  Prv_Public :: "'prv \<Rightarrow> 'pub"
  PrvBytes :: "'prv \<Rightarrow> byte list"
  PubBytes :: "'pub \<Rightarrow> byte list"
  XPrv_Sign :: "'xprv \<Rightarrow> byte list \<Rightarrow> byte list"
  ed25519_Sign :: "'prv \<Rightarrow> byte list \<Rightarrow> byte list"
  XPub_Verify :: "'xpub \<Rightarrow> byte list \<Rightarrow> byte list \<Rightarrow> bool"
  ed25519_Verify :: "'pub \<Rightarrow> byte list \<Rightarrow> byte list \<Rightarrow> bool"
  GenerateKey :: "string + 'prv"
  NewXKeys :: "string + 'xprv"

record ('hash, 'asset, 'block, 'bh, 'tx) bclib =
  Hash_UnmarshalText :: "string \<Rightarrow> string + 'hash"
  Hash_String :: "'hash \<Rightarrow> string"
  Hash_zero :: "'hash"
  ComputeAssetID :: "byte list \<Rightarrow> 'hash \<Rightarrow> 32 word \<Rightarrow> 'asset"
  AssetID_String :: "'asset \<Rightarrow> string"
  Unmarshal_Block :: "string \<Rightarrow> string + 'block"
  Unmarshal_BlockHeader :: "string \<Rightarrow> string + 'bh"
  TxData_UnmarshalText :: "string \<Rightarrow> string + 'tx"
  spew_Block :: "'block \<Rightarrow> string"
  spew_BlockHeader :: "'bh \<Rightarrow> string"
  spew_TxData :: "'tx \<Rightarrow> string"
  DisasmString :: "byte list \<Rightarrow> string + string"
  ParseScriptString :: "string \<Rightarrow> string + byte list"

record hashlib =
  hmac_sha512 :: "byte list \<Rightarrow> byte list \<Rightarrow> byte list"
  sha3_Sum256 :: "byte list \<Rightarrow> byte list"

subsection \<open>The handlers\<close>

definition mustDecodeHash ::
  "('hash, 'asset, 'block, 'bh, 'tx) bclib \<Rightarrow> string \<Rightarrow> outcome + 'hash" where
  "mustDecodeHash B s =
     (case Hash_UnmarshalText B s of
        Inl err \<Rightarrow> Inl (errorf (''error decoding hash: '' @ err))
      | Inr h \<Rightarrow> Inr h)"

definition assetid ::
  "('hash, 'asset, 'block, 'bh, 'tx) bclib \<Rightarrow> string list \<Rightarrow> stdin \<Rightarrow> outcome" where
  "assetid B args stdin =
     (case input args 0 False stdin of
        Inl out \<Rightarrow> out
      | Inr (issuanceInp, usedStdin) \<Rightarrow>
     (case input args 1 usedStdin stdin of
        Inl out \<Rightarrow> out
      | Inr (genesisInp, _) \<Rightarrow>
     (case mustDecodeHex issuanceInp of
        Inl out \<Rightarrow> out
      | Inr issuance \<Rightarrow>
     (case mustDecodeHash B genesisInp of
        Inl out \<Rightarrow> out
      | Inr genesis \<Rightarrow>
          Exit0 (Println (AssetID_String B (ComputeAssetID B issuance genesis 1)))))))"

definition block ::
  "('hash, 'asset, 'block, 'bh, 'tx) bclib \<Rightarrow> string list \<Rightarrow> stdin \<Rightarrow> outcome" where
  "block B args stdin =
     (case input args 0 False stdin of
        Inl out \<Rightarrow> out
      | Inr (inp, _) \<Rightarrow>
          (case Unmarshal_Block B inp of
             Inl err \<Rightarrow> errorf (''error unmarshaling block: '' @ err)
           | Inr blk \<Rightarrow> Exit0 (spew_Block B blk @ [CHR 0x0A])))"

definition blockheader ::
  "('hash, 'asset, 'block, 'bh, 'tx) bclib \<Rightarrow> string list \<Rightarrow> stdin \<Rightarrow> outcome" where
  "blockheader B args stdin =
     (case input args 0 False stdin of
        Inl out \<Rightarrow> out
      | Inr (inp, _) \<Rightarrow>
          (case Unmarshal_BlockHeader B inp of
             Inl err \<Rightarrow> errorf (''error unmarshaling blockheader: '' @ err)
           | Inr bh \<Rightarrow> Exit0 (spew_BlockHeader B bh @ [CHR 0x0A])))"

text \<open>The loop of \<open>derive\<close> over the path arguments.\<close>

fun derive_path :: "string list \<Rightarrow> outcome + 32 word list" where
  "derive_path [] = Inr []"
| "derive_path (a # as) =
     (case ParseUint a 32 of
        (p, Some err) \<Rightarrow> Inl (errorf (''could not parse '' @ a @ '' as uint32''))
      | (p, None) \<Rightarrow>
          (case derive_path as of
             Inl out \<Rightarrow> Inl out
           | Inr path \<Rightarrow> Inr (ucast p # path)))"

text \<open>
  With no argument at all \<open>derive\<close> panics after reading standard input: the capacity
  \<open>len(args)-1\<close> of the path is negative.
\<close>

definition derive ::
  "('xprv, 'xpub, 'prv, 'pub) keylib \<Rightarrow> string list \<Rightarrow> stdin \<Rightarrow> outcome" where
  "derive K args stdin =
     (case input args 0 False stdin of
        Inl out \<Rightarrow> out
      | Inr (k, _) \<Rightarrow>
          if length args = 0 then Panic
          else
            (case derive_path (drop 1 args) of
               Inl out \<Rightarrow> out
             | Inr path \<Rightarrow>
                 (case XPrvFromString K k of
                    Inr xprv \<Rightarrow> Exit0 (Println (XPrv_String K (XPrv_Derive K xprv path)))
                  | Inl _ \<Rightarrow>
                      (case XPubFromString K k of
                         Inr xpub \<Rightarrow> Exit0 (Println (XPub_String K (XPub_Derive K xpub path)))
                       | Inl _ \<Rightarrow> errorf ''could not parse key''))))"

definition genprv ::
  "('xprv, 'xpub, 'prv, 'pub) keylib \<Rightarrow> string list \<Rightarrow> stdin \<Rightarrow> outcome" where
  "genprv K args stdin =
     (case GenerateKey K of
        Inl err \<Rightarrow> errorf (''unexpected error '' @ err)
      | Inr prv \<Rightarrow> Exit0 (Println (EncodeToString (PrvBytes K prv))))"

definition genxprv ::
  "('xprv, 'xpub, 'prv, 'pub) keylib \<Rightarrow> string list \<Rightarrow> stdin \<Rightarrow> outcome" where
  "genxprv K args stdin =
     (case NewXKeys K of
        Inl err \<Rightarrow> errorf (''unexpected error '' @ err)
      | Inr xprv \<Rightarrow> Exit0 (Println (XPrv_String K xprv)))"

definition hexCmd :: "string list \<Rightarrow> stdin \<Rightarrow> outcome" where
  "hexCmd args stdin =
     (case input args 0 False stdin of
        Inl out \<Rightarrow> out
      | Inr (inp, _) \<Rightarrow>
          (case DecodeString inp of
             Inr b \<Rightarrow> Exit0 (Println (map char_of_byte b))
           | Inl _ \<Rightarrow> Exit0 (Println (EncodeToString (map byte_of_char inp)))))"

definition hmac512 :: "hashlib \<Rightarrow> string list \<Rightarrow> stdin \<Rightarrow> outcome" where
  "hmac512 H args stdin =
     (case input args 0 False stdin of
        Inl out \<Rightarrow> out
      | Inr (key, usedStdin) \<Rightarrow>
     (case input args 1 usedStdin stdin of
        Inl out \<Rightarrow> out
      | Inr (val, _) \<Rightarrow>
     (case mustDecodeHex key of
        Inl out \<Rightarrow> out
      | Inr k \<Rightarrow>
     (case mustDecodeHex val of
        Inl out \<Rightarrow> out
      | Inr v \<Rightarrow> Exit0 (Println (EncodeToString (hmac_sha512 H k v)))))))"

definition pub ::
  "('xprv, 'xpub, 'prv, 'pub) keylib \<Rightarrow> string list \<Rightarrow> stdin \<Rightarrow> outcome" where
  "pub K args stdin =
     (case input args 0 False stdin of
        Inl out \<Rightarrow> out
      | Inr (inp, _) \<Rightarrow>
          (case XPrvFromString K inp of
             Inr xprv \<Rightarrow> Exit0 (Println (XPub_String K (XPrv_Public K xprv)))
           | Inl _ \<Rightarrow>
               (case mustDecodeHex inp of
                  Inl out \<Rightarrow> out
                | Inr b \<Rightarrow>
                    (case PrvFromBytes K b of
                       Inr prv \<Rightarrow>
                         Exit0 (Println (EncodeToString (PubBytes K (Prv_Public K prv))))
                     | Inl _ \<Rightarrow> errorf ''could not parse key''))))"

definition script ::
  "('hash, 'asset, 'block, 'bh, 'tx) bclib \<Rightarrow> string list \<Rightarrow> stdin \<Rightarrow> outcome" where
  "script B args stdin =
     (case input args 0 False stdin of
        Inl out \<Rightarrow> out
      | Inr (inp, _) \<Rightarrow>
          (case (case DecodeString inp of
                   Inr b \<Rightarrow> (case DisasmString B b of Inr dis \<Rightarrow> Some dis | Inl _ \<Rightarrow> None)
                 | Inl _ \<Rightarrow> None) of
             Some dis \<Rightarrow> Exit0 (Println dis)
           | None \<Rightarrow>
               (case ParseScriptString B inp of
                  Inr parsed \<Rightarrow> Exit0 (Println (EncodeToString parsed))
                | Inl _ \<Rightarrow> errorf ''could not parse input'')))"

definition sha3Cmd :: "hashlib \<Rightarrow> string list \<Rightarrow> stdin \<Rightarrow> outcome" where
  "sha3Cmd H args stdin =
     (case input args 0 False stdin of
        Inl out \<Rightarrow> out
      | Inr (inp, _) \<Rightarrow>
          (case mustDecodeHex inp of
             Inl out \<Rightarrow> out
           | Inr b \<Rightarrow> Exit0 (Println (EncodeToString (sha3_Sum256 H b)))))"

text \<open>
  In \<open>sign\<close> and \<open>verify\<close> the parsed key is either the extended key (\<open>Inl\<close>, the
  non-nil pointer of the source) or the raw key (\<open>Inr\<close>).  \<open>sign_key\<close> and
  \<open>verify_key\<close> are the key-parsing steps of the two handlers.
\<close>

definition sign_key ::
  "('xprv, 'xpub, 'prv, 'pub) keylib \<Rightarrow> string \<Rightarrow> outcome + ('xprv + 'prv)" where
  "sign_key K keyInp =
     (case XPrvFromString K keyInp of
        Inr xprv \<Rightarrow> Inr (Inl xprv)
      | Inl _ \<Rightarrow>
          (case mustDecodeHex keyInp of
             Inl out \<Rightarrow> Inl out
           | Inr b \<Rightarrow>
               (case PrvFromBytes K b of
                  Inr prv \<Rightarrow> Inr (Inr prv)
                | Inl _ \<Rightarrow> Inl (errorf ''could not parse key''))))"

definition sign ::
  "('xprv, 'xpub, 'prv, 'pub) keylib \<Rightarrow> string list \<Rightarrow> stdin \<Rightarrow> outcome" where
  "sign K args stdin =
     (case input args 0 False stdin of
        Inl out \<Rightarrow> out
      | Inr (keyInp, usedStdin) \<Rightarrow>
     (case input args 1 usedStdin stdin of
        Inl out \<Rightarrow> out
      | Inr (msgInp, _) \<Rightarrow>
     (case sign_key K keyInp of
        Inl out \<Rightarrow> out
      | Inr key \<Rightarrow>
     (case mustDecodeHex msgInp of
        Inl out \<Rightarrow> out
      | Inr msg \<Rightarrow>
          Exit0 (Println (EncodeToString
            (case key of
               Inl xprv \<Rightarrow> XPrv_Sign K xprv msg
             | Inr prv \<Rightarrow> ed25519_Sign K prv msg)))))))"

definition tx ::
  "('hash, 'asset, 'block, 'bh, 'tx) bclib \<Rightarrow> string list \<Rightarrow> stdin \<Rightarrow> outcome" where
  "tx B args stdin =
     (case input args 0 False stdin of
        Inl out \<Rightarrow> out
      | Inr (inp, _) \<Rightarrow>
          (case TxData_UnmarshalText B inp of
             Inl err \<Rightarrow> errorf (''error unmarshaling tx: '' @ err)
           | Inr t \<Rightarrow> Exit0 (spew_TxData B t @ [CHR 0x0A])))"

definition verify_key ::
  "('xprv, 'xpub, 'prv, 'pub) keylib \<Rightarrow> string \<Rightarrow> outcome + ('xpub + 'pub)" where
  "verify_key K keyInp =
     (case XPubFromString K keyInp of
        Inr xpub \<Rightarrow> Inr (Inl xpub)
      | Inl _ \<Rightarrow>
          (case mustDecodeHex keyInp of
             Inl out \<Rightarrow> Inl out
           | Inr b \<Rightarrow>
               (case PubFromBytes K b of
                  Inr pk \<Rightarrow> Inr (Inr pk)
                | Inl _ \<Rightarrow> Inl (errorf ''could not parse key''))))"

definition verify ::
  "('xprv, 'xpub, 'prv, 'pub) keylib \<Rightarrow> string list \<Rightarrow> stdin \<Rightarrow> outcome" where
  "verify K args stdin =
     (case input args 0 False stdin of
        Inl out \<Rightarrow> out
      | Inr (keyInp, usedStdin) \<Rightarrow>
     (case input args 1 usedStdin stdin of
        Inl out \<Rightarrow> out
      | Inr (msgInp, usedStdin) \<Rightarrow>
     (case input args 2 usedStdin stdin of
        Inl out \<Rightarrow> out
      | Inr (sigInp, _) \<Rightarrow>
     (case verify_key K keyInp of
        Inl out \<Rightarrow> out
      | Inr key \<Rightarrow>
     (case mustDecodeHex msgInp of
        Inl out \<Rightarrow> out
      | Inr msg \<Rightarrow>
     (case mustDecodeHex sigInp of
        Inl out \<Rightarrow> out
      | Inr sig \<Rightarrow>
          (let verified =
                 (case key of
                    Inl xpub \<Rightarrow> XPub_Verify K xpub msg sig
                  | Inr pk \<Rightarrow> ed25519_Verify K pk msg sig)
           in if verified then Exit0 (Println ''verified'')
              else Exit0 (Println ''not verified''))))))))"

definition zerohash ::
  "('hash, 'asset, 'block, 'bh, 'tx) bclib \<Rightarrow> string list \<Rightarrow> stdin \<Rightarrow> outcome" where
  "zerohash B args stdin = Exit0 (Println (Hash_String B (Hash_zero B)))"

subsection \<open>The registry and the dispatcher\<close>

text \<open>
  A \<open>command\<close> holds a Go function value; the model names each function by a
  constructor, and \<open>call\<close> below runs the function a constructor names.
\<close>

datatype handler =
    Fn_assetid | Fn_block | Fn_blockheader | Fn_derive | Fn_genprv | Fn_genxprv
  | Fn_hexCmd | Fn_hmac512 | Fn_pub | Fn_script | Fn_sha3Cmd | Fn_sign | Fn_tx
  | Fn_uvarint | Fn_varint | Fn_verify | Fn_zerohash | Fn_help

record command =
  fn :: handler
  help' :: string
  usage :: string

definition mk_command :: "handler \<Rightarrow> string \<Rightarrow> string \<Rightarrow> command" where
  "mk_command f h u = \<lparr>fn = f, help' = h, usage = u\<rparr>"

text \<open>The map literal of \<open>subcommands\<close>, and the entry that \<open>init\<close> adds.\<close>

definition subcommands_literal :: "(string \<times> command) list" where
  "subcommands_literal =
     [(''assetid'', mk_command Fn_assetid ''compute asset id'' ''ISSUANCEPROG GENESISHASH''),
      (''block'', mk_command Fn_block ''decode and pretty-print a block'' ''BLOCK''),
      (''blockheader'',
         mk_command Fn_blockheader ''decode and pretty-print a block header'' ''BLOCKHEADER''),
      (''derive'',
         mk_command Fn_derive ''derive child from given xpub or xprv and given path''
           ''XPUB/XPRV PATH PATH...''),
      (''genprv'', mk_command Fn_genprv ''generate prv'' []),
      (''genxprv'', mk_command Fn_genxprv ''generate xprv'' []),
      (''hex'', mk_command Fn_hexCmd ''string <-> hex'' ''INPUT''),
      (''hmac512'', mk_command Fn_hmac512 ''compute the hmac512 digest'' ''KEY VALUE''),
      (''pub'', mk_command Fn_pub ''get pub key from prv, or xpub from xprv'' ''PRV/XPRV''),
      (''script'', mk_command Fn_script ''hex <-> opcodes'' ''INPUT''),
      (''sha3'', mk_command Fn_sha3Cmd ''produce sha3 hash'' ''INPUT''),
      (''sign'',
         mk_command Fn_sign ''sign, using hex PRV or XPRV, the given hex MSG'' ''PRV/XPRV MSG''),
      (''tx'', mk_command Fn_tx ''decode and pretty-print a transaction'' ''TX''),
      (''uvarint'', mk_command Fn_uvarint ''decimal <-> hex'' ''[-from|-to] VAL''),
      (''varint'', mk_command Fn_varint ''decimal <-> hex'' ''[-from|-to] VAL''),
      (''verify'',
         mk_command Fn_verify ''verify, using hex PUB or XPUB and the given hex MSG and SIG''
           ''PUB/XPUB MSG SIG''),
      (''zerohash'', mk_command Fn_zerohash ''produce an all-zeroes hash'' [])]"

definition subcommands :: "string \<rightharpoonup> command" where
  "subcommands =
     (map_of subcommands_literal)(''help'' \<mapsto> mk_command Fn_help ''show help'' ''[SUBCOMMAND]'')"

definition mustSubcommand :: "string \<Rightarrow> outcome + command" where
  "mustSubcommand name =
     (case subcommands name of
        Some cmd \<Rightarrow> Inr cmd
      | None \<Rightarrow> Inl (errorf (''unknown subcommand '' @ [CHR 0x22] @ name @ [CHR 0x22])))"

text \<open>
  \<open>help\<close> without an argument ranges over the map.  Go leaves the order of a map range
  unspecified: the order of this run is the list \<open>range_order\<close> of the keys.  The verb
  \<open>%-16.16s\<close> cuts the name to 16 characters and pads it with spaces on the right to 16.
\<close>

definition pad16 :: "string \<Rightarrow> string" where
  "pad16 name = take 16 name @ replicate (16 - length (take 16 name)) CHR '' ''"

definition helpCmd :: "string list \<Rightarrow> string list \<Rightarrow> outcome" where
  "helpCmd range_order args =
     (if length args > 0 then
        (case mustSubcommand (args ! 0) of
           Inl out \<Rightarrow> out
         | Inr subcommand \<Rightarrow>
             Exit0 (Println (help' subcommand) @
                    args ! 0 @ '' '' @ usage subcommand @ [CHR 0x0A]))
      else
        Exit0 (concat (map (\<lambda>name.
                 (case subcommands name of
                    Some cmd \<Rightarrow> pad16 name @ '' '' @ help' cmd @ [CHR 0x0A]
                  | None \<Rightarrow> []))
               range_order)))"

text \<open>What a run is given besides its arguments.\<close>

record ('xprv, 'xpub, 'prv, 'pub, 'hash, 'asset, 'block, 'bh, 'tx) world =
  keys :: "('xprv, 'xpub, 'prv, 'pub) keylib"
  chain :: "('hash, 'asset, 'block, 'bh, 'tx) bclib"
  hashes :: hashlib
  range_order :: "string list"
  stdin_read :: stdin

fun call ::
  "('xprv, 'xpub, 'prv, 'pub, 'hash, 'asset, 'block, 'bh, 'tx) world \<Rightarrow>
   handler \<Rightarrow> string list \<Rightarrow> outcome" where
  "call W Fn_assetid args = assetid (chain W) args (stdin_read W)"
| "call W Fn_block args = block (chain W) args (stdin_read W)"
| "call W Fn_blockheader args = blockheader (chain W) args (stdin_read W)"
| "call W Fn_derive args = derive (keys W) args (stdin_read W)"
| "call W Fn_genprv args = genprv (keys W) args (stdin_read W)"
| "call W Fn_genxprv args = genxprv (keys W) args (stdin_read W)"
| "call W Fn_hexCmd args = hexCmd args (stdin_read W)"
| "call W Fn_hmac512 args = hmac512 (hashes W) args (stdin_read W)"
| "call W Fn_pub args = pub (keys W) args (stdin_read W)"
| "call W Fn_script args = script (chain W) args (stdin_read W)"
| "call W Fn_sha3Cmd args = sha3Cmd (hashes W) args (stdin_read W)"
| "call W Fn_sign args = sign (keys W) args (stdin_read W)"
| "call W Fn_tx args = tx (chain W) args (stdin_read W)"
| "call W Fn_uvarint args = uvarint args (stdin_read W)"
| "call W Fn_varint args = varint args (stdin_read W)"
| "call W Fn_verify args = verify (keys W) args (stdin_read W)"
| "call W Fn_zerohash args = zerohash (chain W) args (stdin_read W)"
| "call W Fn_help args = helpCmd (range_order W) args"

text \<open>\<open>main\<close>, on \<open>os.Args\<close>.  Indexing an empty \<open>os.Args\<close> panics.\<close>

definition main ::
  "('xprv, 'xpub, 'prv, 'pub, 'hash, 'asset, 'block, 'bh, 'tx) world \<Rightarrow>
   string list \<Rightarrow> outcome" where
  "main W osArgs =
     (if length osArgs < 2 then
        (if length osArgs = 0 then Panic
         else errorf (''no subcommand (try '' @ [CHR 0x22] @ osArgs ! 0 @ '' help'' @
                      [CHR 0x22] @ '')''))
      else
        (case mustSubcommand (osArgs ! 1) of
           Inl out \<Rightarrow> out
         | Inr subcommand \<Rightarrow> call W (fn subcommand) (drop 2 osArgs)))"

subsection \<open>A small instance of the parameters\<close>

text \<open>
  To run the model on concrete command lines the parameters need values.  The instance
  below is a stand-in, not the real packages: extended keys are the strings that start
  with \<open>xprv\<close> or \<open>xpub\<close>, raw private and public keys are the byte strings of
  length 64 and 32, a signature verifies when it equals the message, and a block, block
  header or transaction decodes when its text starts with an opening brace.
\<close>

definition toy_keys :: "(string, string, byte list, byte list) keylib" where
  "toy_keys =
     \<lparr>XPrvFromString = (\<lambda>s. if HasPrefix s ''xprv'' then Inr s else Inl ''bad key string''),
      XPubFromString = (\<lambda>s. if HasPrefix s ''xpub'' then Inr s else Inl ''bad key string''),
      PrvFromBytes = (\<lambda>b. if length b = 64 then Inr b else Inl ''bad key length''),
      PubFromBytes = (\<lambda>b. if length b = 32 then Inr b else Inl ''bad key length''),
      XPrv_Derive = (\<lambda>k path. k),
      XPub_Derive = (\<lambda>k path. k),
      XPrv_String = (\<lambda>k. k),
      XPub_String = (\<lambda>k. k),
      XPrv_Public = (\<lambda>k. ''xpub'' @ drop 4 k),
      Prv_Public = (\<lambda>k. drop 32 k),
      PrvBytes = (\<lambda>k. k),
      PubBytes = (\<lambda>k. k),
      XPrv_Sign = (\<lambda>k msg. msg),
      ed25519_Sign = (\<lambda>k msg. msg),
      XPub_Verify = (\<lambda>k msg sig. sig = msg),
      ed25519_Verify = (\<lambda>k msg sig. sig = msg),
      GenerateKey = Inl ''no entropy'',
      NewXKeys = Inl ''no entropy''\<rparr>"

definition toy_chain :: "(string, string, string, string, string) bclib" where
  "toy_chain =
     \<lparr>Hash_UnmarshalText = (\<lambda>s. if length s = 64 then Inr s else Inl ''bad hash length''),
      Hash_String = (\<lambda>h. h),
      Hash_zero = replicate 64 CHR ''0'',
      ComputeAssetID = (\<lambda>issuance genesis vmVersion. genesis),
      AssetID_String = (\<lambda>a. a),
      Unmarshal_Block = (\<lambda>s. if HasPrefix s ''{'' then Inr s else Inl ''invalid character''),
      Unmarshal_BlockHeader =
        (\<lambda>s. if HasPrefix s ''{'' then Inr s else Inl ''invalid character''),
      TxData_UnmarshalText =
        (\<lambda>s. if HasPrefix s ''{'' then Inr s else Inl ''invalid character''),
      spew_Block = (\<lambda>b. b),
      spew_BlockHeader = (\<lambda>b. b),
      spew_TxData = (\<lambda>t. t),
      DisasmString = (\<lambda>b. Inl ''bad program''),
      ParseScriptString = (\<lambda>s. Inl ''bad program'')\<rparr>"

definition toy_hashes :: hashlib where
  "toy_hashes = \<lparr>hmac_sha512 = (\<lambda>key val. []), sha3_Sum256 = (\<lambda>b. [])\<rparr>"

definition toy_world ::
  "(string, string, byte list, byte list, string, string, string, string, string) world" where
  "toy_world =
     \<lparr>keys = toy_keys, chain = toy_chain, hashes = toy_hashes,
      range_order = [], stdin_read = Inr []\<rparr>"

subsection \<open>The bytes of an unsigned varint\<close>

text \<open>
  The bytes that \<open>PutUvarint\<close> leaves in the buffer, as a list: seven bits at a time,
  low bits first, the top bit of a byte set when more follow.  Used to state what the
  loops over the buffer compute.
\<close>

function uvarint_bytes :: "uint64 \<Rightarrow> byte list" where
  "uvarint_bytes x =
     (if x \<ge> 0x80 then (ucast x OR 0x80) # uvarint_bytes (drop_bit 7 x) else [ucast x])"
  by pat_completeness auto
termination
proof (relation "measure unat")
  fix x :: uint64
  assume "0x80 \<le> x"
  then have "0 < unat x"
    by (simp add: word_le_nat_alt)
  moreover have "unat (drop_bit 7 x) = unat x div 2 ^ 7"
    by (simp add: drop_bit_eq_div unat_div)
  ultimately show "(drop_bit 7 x, x) \<in> measure unat"
    by simp
qed simp

declare uvarint_bytes.simps [simp del]

section \<open>Properties\<close>

subsection \<open>The registry\<close>

lemma subcommands_Some_iff:
  "(subcommands name \<noteq> None) =
     (name \<in> {''assetid'', ''block'', ''blockheader'', ''derive'', ''genprv'', ''genxprv'',
               ''hex'', ''hmac512'', ''pub'', ''script'', ''sha3'', ''sign'', ''tx'',
               ''uvarint'', ''varint'', ''verify'', ''zerohash'', ''help''})"
  by (simp add: subcommands_def subcommands_literal_def)

lemma main_dispatch:
  "subcommands name = Some cmd \<Longrightarrow> main W (prog # name # args) = call W (fn cmd) args"
  by (simp add: main_def mustSubcommand_def)

text \<open>
  C6.  A subcommand name that is not a key of the registry makes \<open>main\<close> print the one
  line \<open>unknown subcommand "NAME"\<close>, which contains the name, and exit with status 1.
\<close>

theorem unknown_subcommand_fatal:
  assumes "subcommands name = None"
  shows "main W (prog # name # args) =
           Exit1 (''unknown subcommand '' @ [CHR 0x22] @ name @ [CHR 0x22] @ [CHR 0x0A])
         \<and> status (main W (prog # name # args)) = 1"
  using assms by (simp add: main_def mustSubcommand_def errorf_def Println_def)

theorem unknown_subcommand_fatal_witness:
  "subcommands ''frobnicate'' = None
   \<and> main toy_world [''multitool'', ''frobnicate'', ''1''] =
       Exit1 (''unknown subcommand '' @ [CHR 0x22] @ ''frobnicate'' @ [CHR 0x22] @ [CHR 0x0A])
   \<and> status (main toy_world [''multitool'', ''frobnicate'', ''1'']) = 1"
proof -
  have none: "subcommands ''frobnicate'' = None"
    by (simp add: subcommands_def subcommands_literal_def)
  show ?thesis
    using none unknown_subcommand_fatal [OF none, of toy_world "''multitool''" "[''1'']"]
    by simp
qed

subsection \<open>Resolving inputs and inferring the mode\<close>

lemma input_literal:
  "n < length args \<Longrightarrow> args ! n \<noteq> ''-'' \<Longrightarrow> input args n u stdin = Inr (args ! n, u)"
  by (simp add: input_def)

lemma dovarint_no_flag:
  assumes "\<not> (length args > 0 \<and> (args ! 0 = ''-from'' \<or> args ! 0 = ''-to''))"
    and "input args 0 False stdin = Inr (val, u)"
  shows "dovarint args sg stdin =
           dovarint_switch (fst (infer_mode val)) (snd (infer_mode val)) sg"
  using assms by (auto simp add: dovarint_def split: prod.splits)

lemma dovarint_flag:
  assumes "flag = ''-from'' \<or> flag = ''-to''"
    and "input args 0 False stdin = Inr (val, u)"
  shows "dovarint (flag # args) sg stdin = dovarint_switch flag val sg"
  using assms by (auto simp add: dovarint_def)


lemma infer_mode_cases:
  "infer_mode val =
     (if HasPrefix val ''0x'' then (''-from'', drop 2 val)
      else if snd (ParseInt val 64) = None then (''-to'', val)
      else (''-from'', val))"
  by (auto simp add: infer_mode_def TrimPrefix_def numeral_2_eq_2
           split: prod.splits option.splits)

lemma dovarint_switch_from_bad_hex:
  "DecodeString v = Inl e \<Longrightarrow>
   dovarint_switch ''-from'' v sg = errorf (''error decoding hex: '' @ hex_Error e)"
  by (simp add: dovarint_switch_def mustDecodeHex_def)

lemma uvarint_to_300: "dovarint_switch ''-to'' ''300'' False = Exit0 (Println ''ac02'')"
  by code_simp

lemma uvarint_from_ac02: "dovarint_switch ''-from'' ''ac02'' False = Exit0 (Println ''300'')"
  by code_simp

lemma fmtUnicode_z: "fmtUnicode CHR ''z'' = ''U+007A '' @ [CHR 0x27] @ ''z'' @ [CHR 0x27]"
  by code_simp


text \<open>
  C5.  The command line \<open>uvarint 300\<close> prints \<open>ac02\<close>, and \<open>uvarint 0xac02\<close> prints
  \<open>300\<close>; both runs end with status 0, whatever the program name and the environment.
\<close>

theorem uvarint_300_scenario:
  "main W [prog, ''uvarint'', ''300''] = Exit0 (Println ''ac02'')
   \<and> main W [prog, ''uvarint'', ''0xac02''] = Exit0 (Println ''300'')"
proof -
  have cmd: "subcommands ''uvarint'' =
      Some (mk_command Fn_uvarint ''decimal <-> hex'' ''[-from|-to] VAL'')"
    by (simp add: subcommands_def subcommands_literal_def)
  have fn: "fn (mk_command Fn_uvarint h u) = Fn_uvarint" for h u
    by (simp add: mk_command_def)
  have m1: "infer_mode ''300'' = (''-to'', ''300'')"
    by code_simp
  have m2: "infer_mode ''0xac02'' = (''-from'', ''ac02'')"
    by code_simp
  have a: "uvarint [''300''] s = Exit0 (Println ''ac02'')" for s
    unfolding uvarint_def
    by (subst dovarint_no_flag [where val = "''300''" and u = False])
       (simp_all add: input_literal m1 uvarint_to_300)
  have b: "uvarint [''0xac02''] s = Exit0 (Println ''300'')" for s
    unfolding uvarint_def
    by (subst dovarint_no_flag [where val = "''0xac02''" and u = False])
       (simp_all add: input_literal m2 uvarint_from_ac02)
  show ?thesis
    by (simp add: main_dispatch [OF cmd] fn a b)
qed

text \<open>
  C3.  When the first argument is neither \<open>-from\<close> nor \<open>-to\<close>, the mode is settled once
  from the resolved value: a value that begins with \<open>0x\<close> is decoded as hex after the
  prefix is dropped; otherwise a value that \<open>ParseInt\<close> accepts as a base-10 signed
  64-bit integer is encoded to hex; otherwise the value is decoded as hex, and the run
  ends with the fatal hex error when it is not valid hex.
\<close>

theorem mode_inferred_from_shape:
  assumes "\<not> (length args > 0 \<and> (args ! 0 = ''-from'' \<or> args ! 0 = ''-to''))"
    and "input args 0 False stdin = Inr (val, u)"
  shows "dovarint args sg stdin =
           (if HasPrefix val ''0x'' then dovarint_switch ''-from'' (drop 2 val) sg
            else if snd (ParseInt val 64) = None then dovarint_switch ''-to'' val sg
            else
              (case DecodeString val of
                 Inl e \<Rightarrow> Exit1 (Println (''error decoding hex: '' @ hex_Error e))
               | Inr val16 \<Rightarrow> dovarint_switch ''-from'' val sg))"
  using assms
  by (simp add: dovarint_no_flag infer_mode_cases dovarint_switch_from_bad_hex errorf_def
           split: sum.splits)

theorem mode_inferred_from_shape_witness:
  "dovarint [''0xac02''] False (Inr []) = Exit0 (Println ''300'')
   \<and> dovarint [''300''] False (Inr []) = Exit0 (Println ''ac02'')
   \<and> dovarint [''zz''] False (Inr []) =
       Exit1 (Println (''error decoding hex: encoding/hex: invalid byte: U+007A '' @
                       [CHR 0x27] @ ''z'' @ [CHR 0x27]))"
proof -
  have flag: "\<not> (length [v] > 0 \<and> ([v] ! 0 = ''-from'' \<or> [v] ! 0 = ''-to''))"
    if "v \<noteq> ''-from''" "v \<noteq> ''-to''" for v :: string
    using that by simp
  have inp: "input [v] 0 False (Inr []) = Inr (v, False)" if "v \<noteq> ''-''" for v
    using that by (simp add: input_def)
  have a: "HasPrefix ''0xac02'' ''0x''"
    by code_simp
  have b: "\<not> HasPrefix ''300'' ''0x''" "snd (ParseInt ''300'' 64) = None"
    by code_simp+
  have c: "\<not> HasPrefix ''zz'' ''0x''" "snd (ParseInt ''zz'' 64) \<noteq> None"
    "DecodeString ''zz'' = Inl (InvalidByteError CHR ''z'')"
    by code_simp+
  show ?thesis
    using mode_inferred_from_shape [OF flag inp, of "''0xac02''" False]
      mode_inferred_from_shape [OF flag inp, of "''300''" False]
      mode_inferred_from_shape [OF flag inp, of "''zz''" False]
    by (simp add: a b c uvarint_to_300 uvarint_from_ac02 fmtUnicode_z)
qed

text \<open>
  C4.  An argument that is present and is not \<open>-\<close> is returned as it is, with the flag
  unchanged, whatever standard input holds (it is not read).  After one input has been
  taken from standard input the flag is set: a second input that would come from
  standard input ends the run with \<open>can use stdin for only one arg\<close>, while an input given
  as an argument is still returned.  Taking the one input from standard input succeeds
  when reading it returns without an error.
\<close>

theorem input_resolution:
  "(n < length args \<and> args ! n \<noteq> ''-'' \<longrightarrow>
      input args n usedStdin stdin = Inr (args ! n, usedStdin))
   \<and> (\<not> (n < length args \<and> args ! n \<noteq> ''-'') \<longrightarrow>
        input args n False (Inr b) = Inr (b, True))
   \<and> (\<not> (m < length args \<and> args ! m \<noteq> ''-'') \<longrightarrow>
        input args m True stdin = Inl (Exit1 (Println ''can use stdin for only one arg'')))
   \<and> (m < length args \<and> args ! m \<noteq> ''-'' \<longrightarrow>
        input args m True stdin = Inr (args ! m, True))"
  by (simp add: input_def errorf_def)

theorem input_resolution_witness:
  "input [''-'', ''-'', ''6869''] 2 False (Inl ''context deadline exceeded'') = Inr (''6869'', False)
   \<and> input [''-'', ''-'', ''6869''] 0 False (Inr ''00'') = Inr (''00'', True)
   \<and> input [''-'', ''-'', ''6869''] 1 True (Inr ''00'') =
         Inl (Exit1 (Println ''can use stdin for only one arg''))
   \<and> input [''-'', ''-'', ''6869''] 2 True (Inr ''00'') = Inr (''6869'', True)"
proof -
  let ?args = "[''-'', ''-'', ''6869'']"
  have lit: "2 < length ?args \<and> ?args ! 2 \<noteq> ''-''"
    by simp
  have std0: "\<not> (0 < length ?args \<and> ?args ! 0 \<noteq> ''-'')"
    by simp
  have std1: "\<not> (1 < length ?args \<and> ?args ! 1 \<noteq> ''-'')"
    by simp
  have a: "input ?args 2 False (Inl ''context deadline exceeded'') = Inr (?args ! 2, False)"
    using input_resolution [of 2 ?args False "Inl ''context deadline exceeded''"] lit
    by blast
  have b: "input ?args 0 False (Inr ''00'') = Inr (''00'', True)"
    using input_resolution [of 0 ?args _ _ "''00''"] std0 by blast
  have c: "input ?args 1 True (Inr ''00'') =
      Inl (Exit1 (Println ''can use stdin for only one arg''))"
    using input_resolution [of _ ?args _ "Inr ''00''" _ 1] std1 by blast
  have d: "input ?args 2 True (Inr ''00'') = Inr (?args ! 2, True)"
    using input_resolution [of _ ?args _ "Inr ''00''" _ 2] lit by blast
  show ?thesis
    using a b c d by simp
qed

subsection \<open>The explicit \<open>-from\<close> flag\<close>




subsection \<open>The block, blockheader and tx subcommands\<close>

text \<open>
  C9.  The registry has the entries \<open>block\<close>, \<open>blockheader\<close> and \<open>tx\<close>.  Each of them
  resolves one input and decodes it, as a block, a block header or a transaction: the
  run prints the decoded value on success and ends with a fatal error naming the decode
  failure otherwise, so it does not end with the unknown-subcommand error.
\<close>

theorem block_blockheader_tx_dispatch:
  assumes "input args 0 False (stdin_read W) = Inr (inp, u)"
  shows "map_option fn (subcommands ''block'') = Some Fn_block
         \<and> map_option fn (subcommands ''blockheader'') = Some Fn_blockheader
         \<and> map_option fn (subcommands ''tx'') = Some Fn_tx
         \<and> main W (prog # ''block'' # args) =
             (case Unmarshal_Block (chain W) inp of
                Inr blk \<Rightarrow> Exit0 (spew_Block (chain W) blk @ [CHR 0x0A])
              | Inl err \<Rightarrow> Exit1 (Println (''error unmarshaling block: '' @ err)))
         \<and> main W (prog # ''blockheader'' # args) =
             (case Unmarshal_BlockHeader (chain W) inp of
                Inr bh \<Rightarrow> Exit0 (spew_BlockHeader (chain W) bh @ [CHR 0x0A])
              | Inl err \<Rightarrow> Exit1 (Println (''error unmarshaling blockheader: '' @ err)))
         \<and> main W (prog # ''tx'' # args) =
             (case TxData_UnmarshalText (chain W) inp of
                Inr t \<Rightarrow> Exit0 (spew_TxData (chain W) t @ [CHR 0x0A])
              | Inl err \<Rightarrow> Exit1 (Println (''error unmarshaling tx: '' @ err)))"
proof -
  have b: "subcommands ''block'' =
      Some (mk_command Fn_block ''decode and pretty-print a block'' ''BLOCK'')"
    by (simp add: subcommands_def subcommands_literal_def)
  have h: "subcommands ''blockheader'' =
      Some (mk_command Fn_blockheader ''decode and pretty-print a block header'' ''BLOCKHEADER'')"
    by (simp add: subcommands_def subcommands_literal_def)
  have t: "subcommands ''tx'' =
      Some (mk_command Fn_tx ''decode and pretty-print a transaction'' ''TX'')"
    by (simp add: subcommands_def subcommands_literal_def)
  have fn: "fn (mk_command f hl us) = f" for f hl us
    by (simp add: mk_command_def)
  have mb: "main W (prog # ''block'' # args) = block (chain W) args (stdin_read W)"
    by (simp add: main_dispatch [OF b] fn)
  have mh: "main W (prog # ''blockheader'' # args) = blockheader (chain W) args (stdin_read W)"
    by (simp add: main_dispatch [OF h] fn)
  have mt: "main W (prog # ''tx'' # args) = tx (chain W) args (stdin_read W)"
    by (simp add: main_dispatch [OF t] fn)
  show ?thesis
    using assms
    by (simp add: b h t fn mb mh mt block_def blockheader_def tx_def errorf_def
             split: sum.splits)
qed

theorem block_blockheader_tx_dispatch_witness:
  "main toy_world [''multitool'', ''block'', ''{}''] = Exit0 (''{}'' @ [CHR 0x0A])
   \<and> main toy_world [''multitool'', ''blockheader'', ''{}''] = Exit0 (''{}'' @ [CHR 0x0A])
   \<and> main toy_world [''multitool'', ''tx'', ''07''] =
       Exit1 (Println ''error unmarshaling tx: invalid character'')"
proof -
  have w: "stdin_read toy_world = Inr []" "chain toy_world = toy_chain"
    by (simp_all add: toy_world_def)
  have i1: "input [''{}''] 0 False (stdin_read toy_world) = Inr (''{}'', False)"
    by (simp add: input_def)
  have i2: "input [''07''] 0 False (stdin_read toy_world) = Inr (''07'', False)"
    by (simp add: input_def)
  have d: "Unmarshal_Block toy_chain ''{}'' = Inr ''{}''"
    "Unmarshal_BlockHeader toy_chain ''{}'' = Inr ''{}''"
    "TxData_UnmarshalText toy_chain ''07'' = Inl ''invalid character''"
    "spew_Block toy_chain ''{}'' = ''{}''"
    "spew_BlockHeader toy_chain ''{}'' = ''{}''"
    by (simp_all add: toy_chain_def HasPrefix_def)
  show ?thesis
    using block_blockheader_tx_dispatch [OF i1, of "''multitool''"]
      block_blockheader_tx_dispatch [OF i2, of "''multitool''"]
    by (simp add: w d)
qed

subsection \<open>Keys\<close>

text \<open>
  C7.  When \<open>verify\<close> has resolved its three inputs, has parsed the key and has decoded
  the message and the signature, the run ends with status 0 and prints \<open>verified\<close> when
  the verification of the package succeeds and \<open>not verified\<close> when it fails; so
  \<open>verified\<close> is printed exactly when the verification succeeds.
\<close>

theorem verify_negative_result_not_fatal:
  assumes "input args 0 False stdin = Inr (keyInp, u1)"
    and "input args 1 u1 stdin = Inr (msgInp, u2)"
    and "input args 2 u2 stdin = Inr (sigInp, u3)"
    and "verify_key K keyInp = Inr key"
    and "DecodeString msgInp = Inr msg"
    and "DecodeString sigInp = Inr sig"
    and "ok = (case key of Inl xpub \<Rightarrow> XPub_Verify K xpub msg sig
                         | Inr pk \<Rightarrow> ed25519_Verify K pk msg sig)"
  shows "verify K args stdin = Exit0 (Println (if ok then ''verified'' else ''not verified''))
         \<and> status (verify K args stdin) = 0
         \<and> (stdout (verify K args stdin) = Println ''verified'') = ok"
  using assms by (simp add: verify_def mustDecodeHex_def Println_def)

theorem verify_negative_result_not_fatal_witness:
  "verify toy_keys [''xpub00'', ''6869'', ''686a''] (Inr []) = Exit0 (Println ''not verified'')
   \<and> status (verify toy_keys [''xpub00'', ''6869'', ''686a''] (Inr [])) = 0
   \<and> verify toy_keys [''xpub00'', ''6869'', ''6869''] (Inr []) = Exit0 (Println ''verified'')"
proof -
  have i: "input [''xpub00'', ''6869'', s] 0 False (Inr []) = Inr (''xpub00'', False)"
    "input [''xpub00'', ''6869'', s] 1 False (Inr []) = Inr (''6869'', False)" for s
    by (simp_all add: input_def)
  have i2: "input [''xpub00'', ''6869'', ''686a''] 2 False (Inr []) = Inr (''686a'', False)"
    "input [''xpub00'', ''6869'', ''6869''] 2 False (Inr []) = Inr (''6869'', False)"
    by (simp_all add: input_def)
  have k: "verify_key toy_keys ''xpub00'' = Inr (Inl ''xpub00'')"
    by (simp add: verify_key_def toy_keys_def HasPrefix_def)
  have m: "DecodeString ''6869'' = Inr [0x68, 0x69]" "DecodeString ''686a'' = Inr [0x68, 0x6a]"
    by code_simp+
  have v: "XPub_Verify toy_keys k' ms sg = (sg = ms)" for k' ms sg
    by (simp add: toy_keys_def)
  show ?thesis
    using verify_negative_result_not_fatal [OF i(1) i(2) i2(1) k m(1) m(2) refl]
      verify_negative_result_not_fatal [OF i(1) i(2) i2(2) k m(1) m(1) refl]
    by (simp add: v)
qed




section \<open>The varint round trip\<close>

subsection \<open>Hex encoding and decoding are inverse\<close>

lemma fromHexChar_hextable_all:
  "\<forall>n\<in>{0..<16}. fromHexChar (hextable ! n) = Some (of_nat n)"
  by code_simp

lemma fromHexChar_hextable: "n < 16 \<Longrightarrow> fromHexChar (hextable ! n) = Some (of_nat n)"
  using fromHexChar_hextable_all by simp

lemma byte_nibbles: "push_bit 4 (drop_bit 4 v) OR (v AND 0x0f) = (v :: byte)"
proof (rule bit_word_eqI)
  fix n assume "n < LENGTH(8)"
  have m: "(15 :: byte) = mask 4" by (simp add: mask_eq_exp_minus_1)
  show "bit (push_bit 4 (drop_bit 4 v) OR (v AND 0x0f)) n = bit v n"
    unfolding m using bit_imp_le_length [of v n] by (auto simp add: bit_simps)
qed

lemma unat_byte_less: "unat (v :: byte) < 256"
  using unsigned_less [of v, where 'a = nat] by simp

lemma unat_high_nibble: "unat (drop_bit 4 (v :: byte)) < 16"
proof -
  have "unat (drop_bit 4 v) = unat v div 2 ^ 4"
    by (simp add: drop_bit_eq_div unat_div)
  then show ?thesis using unat_byte_less [of v] by simp
qed

lemma unat_low_nibble: "unat ((v :: byte) AND 0x0f) < 16"
proof -
  have "unat (v AND 15) \<le> unat (15 :: byte)"
    by (rule word_and_le1 [THEN word_le_nat_alt [THEN iffD1]])
  then show ?thesis by simp
qed

lemma Decode_EncodeToString: "Decode (EncodeToString bs) = Inr bs"
proof (induction bs)
  case Nil
  show ?case by (simp add: EncodeToString_def)
next
  case (Cons v bs)
  have e: "EncodeToString (v # bs) =
      hextable ! unat (drop_bit 4 v) # hextable ! unat (v AND 0x0f) # EncodeToString bs"
    by (simp add: EncodeToString_def)
  show ?case
    by (simp add: e Cons.IH fromHexChar_hextable unat_high_nibble unat_low_nibble byte_nibbles)
qed

lemma length_EncodeToString: "length (EncodeToString bs) = 2 * length bs"
  by (induction bs) (simp_all add: EncodeToString_def)

lemma DecodeString_EncodeToString: "DecodeString (EncodeToString bs) = Inr bs"
  by (simp add: DecodeString_def length_EncodeToString Decode_EncodeToString)

lemma mustDecodeHex_EncodeToString: "mustDecodeHex (EncodeToString bs) = Inr bs"
  by (simp add: mustDecodeHex_def DecodeString_EncodeToString)

subsection \<open>The zig-zag step of the signed varint\<close>

lemma sless_0_iff_bit63: "(x <s 0) = bit (x :: int64) 63"
  using bit_last_iff [of x] by (simp add: word_sless_alt)

lemma and_1_iff_bit_0: "((w :: uint64) AND 1 \<noteq> 0) = bit w 0"
  by (simp add: and_one_eq bit_0 odd_iff_mod_2_eq_one)

lemma drop_push_neg:
  fixes x :: int64
  assumes "0 < k" "k < 2" "bit x 63"
  shows "NOT (drop_bit k (NOT (push_bit k x))) = x"
proof (rule bit_word_eqI)
  fix n assume "n < LENGTH(64)"
  then show "bit (NOT (drop_bit k (NOT (push_bit k x)))) n = bit x n"
    using assms by (cases "n = 63") (auto simp add: bit_simps)
qed

lemma drop_push_pos:
  fixes x :: int64
  assumes "0 < k" "k < 2" "\<not> bit x 63"
  shows "drop_bit k (push_bit k x) = x"
proof (rule bit_word_eqI)
  fix n assume "n < LENGTH(64)"
  then show "bit (drop_bit k (push_bit k x)) n = bit x n"
    using assms by (cases "n = 63") (auto simp add: bit_simps)
qed

lemma Varint_zigzag:
  fixes x :: int64
  defines "ux \<equiv> (if x <s 0 then NOT (push_bit 1 x) else push_bit 1 x)"
  shows "(if ux AND 1 \<noteq> 0 then NOT (drop_bit 1 ux) else drop_bit 1 ux) = x"
proof (cases "x <s 0")
  case True
  then have msb: "bit x 63"
    by (simp add: sless_0_iff_bit63)
  have ux: "ux = NOT (push_bit 1 x)"
    using True by (simp add: ux_def)
  have odd: "ux AND 1 \<noteq> 0"
    unfolding ux and_1_iff_bit_0 by (simp add: bit_simps bit_0)
  have "NOT (drop_bit 1 ux) = x"
    unfolding ux using drop_push_neg [of 1 x] msb by simp
  with odd show ?thesis by simp
next
  case False
  then have msb: "\<not> bit x 63"
    by (simp add: sless_0_iff_bit63)
  have ux: "ux = push_bit 1 x"
    using False by (simp add: ux_def)
  have even: "\<not> ux AND 1 \<noteq> 0"
    unfolding ux and_1_iff_bit_0 by (simp add: bit_simps bit_0)
  have "drop_bit 1 ux = x"
    unfolding ux using drop_push_pos [of 1 x] msb by simp
  with even show ?thesis by simp
qed

subsection \<open>Parsing the decimal text of a number\<close>

lemma digit_char_all:
  "\<forall>k\<in>{0..<10}.
     CHR ''0'' \<le> char_of (48 + k :: nat) \<and> char_of (48 + k) \<le> CHR ''9''
     \<and> byte_of_char (char_of (48 + k)) - byte_of_char CHR ''0'' = of_nat k
     \<and> char_of (48 + k) \<noteq> CHR ''-'' \<and> char_of (48 + k) \<noteq> CHR ''+''"
  by code_simp

lemma digit_char:
  assumes "k < 10"
  shows "CHR ''0'' \<le> char_of (48 + k :: nat)" "char_of (48 + k) \<le> CHR ''9''"
    "byte_of_char (char_of (48 + k)) - byte_of_char CHR ''0'' = of_nat k"
    "char_of (48 + k) \<noteq> CHR ''-''" "char_of (48 + k) \<noteq> CHR ''+''"
  using digit_char_all assms by simp_all

lemma ParseUint_loop_append:
  "ParseUint_loop maxVal n (s @ t) =
     (case ParseUint_loop maxVal n s of
        (n', None) \<Rightarrow> ParseUint_loop maxVal n' t
      | (n', Some e) \<Rightarrow> (n', Some e))"
  by (induction s arbitrary: n) (simp_all add: Let_def)

lemma ucast_digit: "k < 10 \<Longrightarrow> (ucast (of_nat k :: byte) :: uint64) = of_nat k"
proof -
  assume k: "k < 10"
  have "unat (of_nat k :: byte) = k"
    using k by (simp add: unat_of_nat)
  then show ?thesis
    by (metis of_nat_unat ucast_id unsigned_of_nat  unat_of_nat)
qed


lemma cutoff64_value: "cutoff64 = 1844674407370955162"
  by (simp add: cutoff64_def)

lemma unat_of_nat_64: "q < 2 ^ 64 \<Longrightarrow> unat (of_nat q :: uint64) = q"
  by (simp add: unat_of_nat)

lemma ParseUint_step:
  assumes "k < 10" and "q * 10 + k < 2 ^ 64"
  shows "ParseUint_loop (- 1) (of_nat q) [char_of (48 + k)] = (of_nat (q * 10 + k), None)"
proof -
  have q: "q < 1844674407370955162"
    using assms by simp
  have c: "\<not> cutoff64 \<le> (of_nat q :: uint64)"
    using q by (simp add: cutoff64_value word_le_nat_alt unat_of_nat_64)
  have m: "(of_nat q :: uint64) * 10 + ucast (of_nat k :: byte) = of_nat (q * 10 + k)"
    using assms(1) by (simp add: ucast_digit)
  have q10: "(of_nat q :: uint64) * 10 = of_nat (q * 10)"
    by simp
  have u1: "unat (of_nat (q * 10 + k) :: uint64) = q * 10 + k"
    using assms(2) by (rule unat_of_nat_64)
  have u2: "unat (of_nat (q * 10) :: uint64) = q * 10"
    using assms(2) by (intro unat_of_nat_64) simp
  have nlt: "\<not> (of_nat (q * 10 + k) :: uint64) < of_nat q * 10"
    unfolding q10 word_less_nat_alt u1 u2 by simp
  have ngt: "\<not> (of_nat (q * 10 + k) :: uint64) > - 1"
    by (simp add: not_less)
  show ?thesis
    using c nlt ngt assms(1)
    by (simp add: digit_char Let_def m del: of_nat_add of_nat_mult)
qed

lemma ParseUint_loop_FormatNat:
  "m < 2 ^ 64 \<Longrightarrow> ParseUint_loop (- 1) 0 (FormatNat m) = (of_nat m, None)"
proof (induction m rule: FormatNat.induct)
  case (1 n)
  show ?case
  proof (cases "n < 10")
    case True
    have "ParseUint_loop (- 1) (of_nat 0) [char_of (48 + n)] = (of_nat (0 * 10 + n), None)"
      using True "1.prems" by (intro ParseUint_step) simp_all
    then show ?thesis
      using True by (subst FormatNat.simps) simp
  next
    case False
    have d: "n div 10 * 10 + n mod 10 = n"
      by simp
    have "n div 10 < 2 ^ 64"
      using "1.prems" by simp
    from "1.IH" [OF False this]
    have IH: "ParseUint_loop (- 1) 0 (FormatNat (n div 10)) = (of_nat (n div 10), None)" .
    have k: "n mod 10 < 10"
      by simp
    have b: "n div 10 * 10 + n mod 10 < 2 ^ 64"
      using "1.prems" by (simp only: d)
    have "ParseUint_loop (- 1) (of_nat (n div 10)) [char_of (48 + n mod 10)] = (of_nat n, None)"
      using ParseUint_step [OF k b] by (simp only: d)
    then show ?thesis
      using False by (subst FormatNat.simps) (simp add: ParseUint_loop_append IH)
  qed
qed

lemma FormatNat_hd:
  "FormatNat m \<noteq> [] \<and> hd (FormatNat m) \<noteq> CHR ''-'' \<and> hd (FormatNat m) \<noteq> CHR ''+''"
proof (induction m rule: FormatNat.induct)
  case (1 n)
  show ?case
  proof (cases "n < 10")
    case True
    then show ?thesis
      by (subst (1 2 3) FormatNat.simps) (simp add: digit_char)
  next
    case False
    with "1.IH" show ?thesis
      by (subst (1 2 3) FormatNat.simps) simp
  qed
qed

lemma ParseUint_FormatNat:
  "m < 2 ^ 64 \<Longrightarrow> ParseUint (FormatNat m) 64 = (of_nat m, None)"
proof -
  assume m: "m < 2 ^ 64"
  have len: "\<not> length (FormatNat m) < 1"
    using FormatNat_hd [of m] by (cases "FormatNat m") simp_all
  have eq: "(push_bit 64 1 - 1 :: uint64) = - 1"
    by simp
  show ?thesis
    unfolding ParseUint_def eq using len ParseUint_loop_FormatNat [OF m]
    by (simp only: if_False)
qed


lemma bit63_iff: "bit (x :: uint64) 63 = (2 ^ 63 \<le> unat x)"
proof -
  have lt: "unat x < 2 ^ 64"
    using unsigned_less [of x, where 'a = nat] by simp
  have "bit x 63 = bit (unat x) 63"
    by (simp add: bit_unsigned_iff)
  also have "\<dots> = odd (unat x div 2 ^ 63)"
    by (simp add: bit_iff_odd)
  also have "\<dots> = (2 ^ 63 \<le> unat x)"
  proof (cases "2 ^ 63 \<le> unat x")
    case True
    with lt have "unat x div 2 ^ 63 = 1"
      by simp
    with True show ?thesis by simp
  next
    case False
    then have "unat x div 2 ^ 63 = 0"
      by simp
    with False show ?thesis by simp
  qed
  finally show ?thesis .
qed

lemma unat_uminus_64: "unat (- (x :: uint64)) = (if x = 0 then 0 else 2 ^ 64 - unat x)"
proof (cases "x = 0")
  case True
  then show ?thesis by simp
next
  case False
  then have "unat x \<noteq> 0"
    by (simp add: unat_eq_0)
  then show ?thesis
    using unat_sub_if_size [of 0 x] False by (simp add: word_size)
qed

lemma ParseInt_FormatInt: "ParseInt (FormatInt n) 64 = (n, None)"
proof (cases "n <s 0")
  case False
  then have small: "unat n < 2 ^ 63"
    by (simp add: sless_0_iff_bit63 bit63_iff)
  let ?s = "FormatNat (unat n)"
  have hd: "?s \<noteq> []" "hd ?s \<noteq> CHR ''-''" "hd ?s \<noteq> CHR ''+''"
    using FormatNat_hd [of "unat n"] by simp_all
  have p: "ParseUint ?s 64 = (n, None)"
    using small by (subst ParseUint_FormatNat) simp_all
  have c: "\<not> (push_bit (64 - 1) 1 :: uint64) \<le> n"
    using small by (simp add: word_le_nat_alt)
  show ?thesis
    using False hd c by (simp add: FormatInt_def FormatUint_def ParseInt_def p Let_def)
next
  case True
  then have big: "2 ^ 63 \<le> unat n"
    by (simp add: sless_0_iff_bit63 bit63_iff)
  then have n0: "n \<noteq> 0"
    by auto
  have lt: "unat n < 2 ^ 64"
    using unsigned_less [of n, where 'a = nat] by simp
  have m: "unat (- n) = 2 ^ 64 - unat n"
    using n0 by (simp add: unat_uminus_64)
  let ?s = "FormatNat (unat (- n))"
  have p: "ParseUint ?s 64 = (- n, None)"
    using m lt big by (subst ParseUint_FormatNat) simp_all
  have c: "\<not> (push_bit (64 - 1) 1 :: uint64) < - n"
    using big m by (simp add: word_less_nat_alt)
  show ?thesis
    using True c by (simp add: FormatInt_def FormatUint_def ParseInt_def p Let_def)
qed

lemma ParseInt_FormatUint:
  assumes "unat n < 2 ^ 63"
  shows "ParseInt (FormatUint n) 64 = (n, None)"
proof -
  have "\<not> n <s 0"
    using assms by (simp add: sless_0_iff_bit63 bit63_iff)
  then have "FormatInt n = FormatUint n"
    by (simp add: FormatInt_def)
  with ParseInt_FormatInt [of n] show ?thesis
    by simp
qed

lemma ParseInt_FormatUint_range:
  assumes "2 ^ 63 \<le> unat n"
  shows "snd (ParseInt (FormatUint n) 64) = Some ErrRange"
proof -
  have lt: "unat n < 2 ^ 64"
    using unsigned_less [of n, where 'a = nat] by simp
  let ?s = "FormatNat (unat n)"
  have hd: "?s \<noteq> []" "hd ?s \<noteq> CHR ''-''" "hd ?s \<noteq> CHR ''+''"
    using FormatNat_hd [of "unat n"] by simp_all
  have p: "ParseUint ?s 64 = (n, None)"
    using lt by (subst ParseUint_FormatNat) simp_all
  have c: "(push_bit (64 - 1) 1 :: uint64) \<le> n"
    using assms by (simp add: word_le_nat_alt)
  show ?thesis
    using hd c by (simp add: FormatUint_def ParseInt_def p Let_def)
qed

subsection \<open>Writing and reading the bytes of an unsigned varint\<close>

lemma unat_drop_bit_7: "unat (drop_bit 7 (x :: uint64)) = unat x div 128"
  by (simp add: drop_bit_eq_div unat_div)

lemma uint64_ge_0x80: "((0x80 :: uint64) \<le> x) = (128 \<le> unat x)"
  by (simp add: word_le_nat_alt)

lemma length_uvarint_bytes_le:
  "unat x < 2 ^ (7 * k) \<Longrightarrow> 0 < k \<Longrightarrow> length (uvarint_bytes x) \<le> k"
proof (induction x arbitrary: k rule: uvarint_bytes.induct)
  case (1 x)
  show ?case
  proof (cases "0x80 \<le> x")
    case False
    then show ?thesis
      using "1.prems" by (subst uvarint_bytes.simps) simp
  next
    case True
    then have big: "128 \<le> unat x"
      by (simp add: uint64_ge_0x80)
    have k2: "1 < k"
    proof (rule ccontr)
      assume "\<not> 1 < k"
      with "1.prems" have "k = 1" by simp
      with "1.prems" big show False by simp
    qed
    then obtain j where k: "k = Suc j" and j: "0 < j"
      by (cases k) auto
    have "unat x < 128 * 2 ^ (7 * j)"
      using "1.prems"(1) by (simp add: k power_add)
    then have "unat (drop_bit 7 x) < 2 ^ (7 * j)"
      by (simp add: unat_drop_bit_7 less_mult_imp_div_less mult.commute)
    from "1.IH" [OF True this j] show ?thesis
      using True by (subst uvarint_bytes.simps) (simp add: k)
  qed
qed

lemma length_uvarint_bytes: "length (uvarint_bytes x) \<le> 10"
proof -
  have "unat x < 2 ^ 64"
    using unsigned_less [of x, where 'a = nat] by simp
  also have "(2 :: nat) ^ 64 \<le> 2 ^ (7 * 10)"
    by simp
  finally show ?thesis
    by (rule length_uvarint_bytes_le) simp
qed

lemma uvarint_bytes_nonempty: "0 < length (uvarint_bytes x)"
  by (subst uvarint_bytes.simps) simp

lemma PutUvarint_loop_bytes:
  "i + length (uvarint_bytes x) \<le> length buf \<Longrightarrow>
   PutUvarint_loop buf i x =
     Some (take i buf @ uvarint_bytes x @ drop (i + length (uvarint_bytes x)) buf,
           i + length (uvarint_bytes x))"
proof (induction buf i x rule: PutUvarint_loop.induct)
  case (1 buf i x)
  have i: "i < length buf"
    using "1.prems" uvarint_bytes_nonempty [of x] by linarith
  show ?case
  proof (cases "0x80 \<le> x")
    case False
    then have b: "uvarint_bytes x = [ucast x]"
      by (subst uvarint_bytes.simps) simp
    show ?thesis
      using False i
      by (subst PutUvarint_loop.simps) (simp add: b upd_conv_take_nth_drop)
  next
    case True
    then have b: "uvarint_bytes x = (ucast x OR 0x80) # uvarint_bytes (drop_bit 7 x)"
      by (subst uvarint_bytes.simps) simp
    let ?buf = "buf[i := ucast x OR 0x80]"
    let ?n = "length (uvarint_bytes (drop_bit 7 x))"
    have "i + 1 + ?n \<le> length ?buf"
      using "1.prems" by (simp add: b)
    from "1.IH" [OF True i this]
    have "PutUvarint_loop ?buf (i + 1) (drop_bit 7 x) =
        Some (take (i + 1) ?buf @ uvarint_bytes (drop_bit 7 x) @ drop (i + 1 + ?n) ?buf,
              i + 1 + ?n)" .
    moreover have "take (i + 1) ?buf = take i buf @ [ucast x OR 0x80]"
      using i by (simp add: take_Suc_conv_app_nth)
    moreover have "drop (i + 1 + ?n) ?buf = drop (i + 1 + ?n) buf"
      by simp
    ultimately show ?thesis
      using True i by (subst PutUvarint_loop.simps) (simp add: b)
  qed
qed

lemma PutUvarint_bytes:
  "\<exists>buf n. PutUvarint (replicate 10 0) x = Some (buf, n) \<and> take n buf = uvarint_bytes x"
proof -
  have "0 + length (uvarint_bytes x) \<le> length (replicate 10 (0 :: byte))"
    using length_uvarint_bytes [of x] by simp
  from PutUvarint_loop_bytes [OF this] show ?thesis
    by (simp add: PutUvarint_def)
qed




lemma continuation_byte_not_less: "\<not> ((b :: byte) OR 0x80 < 0x80)"
  using le_word_or2 [of "0x80 :: byte" b] by (simp add: or.commute not_less)

lemma bit_128_int: "bit (128 :: int) n = (n = 7)"
proof -
  have "(128 :: int) = push_bit 7 1"
    by simp
  then show ?thesis
    by (simp only: bit_simps) auto
qed

lemma low7_of_continuation:
  "(ucast (((ucast (y :: uint64) :: byte) OR 0x80) AND 0x7f) :: uint64) = y AND 0x7f"
proof (rule bit_word_eqI)
  fix n assume "n < LENGTH(64)"
  have m: "(0x7f :: byte) = mask 7" "(0x7f :: uint64) = mask 7"
    by (simp_all add: mask_eq_exp_minus_1)
  show "bit (ucast (((ucast y :: byte) OR 0x80) AND 0x7f) :: uint64) n = bit (y AND 0x7f) n"
    unfolding m by (auto simp add: bit_simps bit_128_int)
qed

lemma ucast_small:
  assumes "\<not> 0x80 \<le> (y :: uint64)"
  shows "(ucast (ucast y :: byte) :: uint64) = y" and "(ucast y :: byte) < 0x80"
    and "unat (ucast y :: byte) = unat y"
proof -
  have y: "unat y < 128"
    using assms by (simp add: uint64_ge_0x80)
  have u: "unat (ucast y :: byte) = unat y"
    using y by (simp add: unsigned_ucast_eq take_bit_nat_eq_self)
  show "unat (ucast y :: byte) = unat y" by (rule u)
  show "(ucast y :: byte) < 0x80"
    using y u by (simp add: word_less_nat_alt)
  have "y < 2 ^ 7"
    using assms by simp
  then have m: "y AND mask 7 = y"
    by (rule less_mask_eq)
  show "(ucast (ucast y :: byte) :: uint64) = y"
  proof (rule bit_word_eqI)
    fix n assume "n < LENGTH(64)"
    have "bit y n \<Longrightarrow> n < 7"
      by (subst (asm) m [symmetric]) (simp add: bit_simps)
    then show "bit (ucast (ucast y :: byte) :: uint64) n = bit y n"
      by (auto simp add: bit_simps)
  qed
qed

lemma split_low7:
  "push_bit s ((y :: uint64) AND 0x7f) OR push_bit (s + 7) (drop_bit 7 y) = push_bit s y"
proof (rule bit_word_eqI)
  fix n assume n: "n < LENGTH(64)"
  have m: "(0x7f :: uint64) = mask 7"
    by (simp add: mask_eq_exp_minus_1)
  show "bit (push_bit s (y AND 0x7f) OR push_bit (s + 7) (drop_bit 7 y)) n = bit (push_bit s y) n"
  proof (cases "s + 7 \<le> n")
    case True
    then have "7 + (n - (s + 7)) = n - s" "s \<le> n" "\<not> n - s < 7"
      by simp_all
    then show ?thesis
      unfolding m using n True by (simp add: bit_simps)
  next
    case False
    then have "s \<le> n \<Longrightarrow> n - s < 7"
      by simp
    then show ?thesis
      unfolding m using n False by (auto simp add: bit_simps)
  qed
qed

lemma Uvarint_loop_bytes:
  "s = 7 * i \<Longrightarrow> unat y < 2 ^ (64 - 7 * i) \<Longrightarrow> i \<le> 9 \<Longrightarrow>
   Uvarint_loop (uvarint_bytes y) i acc s =
     (acc OR push_bit s y, int i + int (length (uvarint_bytes y)))"
proof (induction y arbitrary: i acc s rule: uvarint_bytes.induct)
  case (1 y)
  show ?case
  proof (cases "0x80 \<le> y")
    case False
    then have b: "uvarint_bytes y = [ucast y]"
      by (subst uvarint_bytes.simps) simp
    have "\<not> (i = 9 \<and> (ucast y :: byte) > 1)"
    proof
      assume a: "i = 9 \<and> (ucast y :: byte) > 1"
      with "1.prems" have "unat y < 2" by simp
      moreover from a have "1 < unat (ucast y :: byte)"
        by (simp add: word_less_nat_alt)
      ultimately show False
        using ucast_small(3) [OF False] by simp
    qed
    then show ?thesis
      using "1.prems" ucast_small [OF False] by (auto simp add: b)
  next
    case True
    then have b: "uvarint_bytes y = (ucast y OR 0x80) # uvarint_bytes (drop_bit 7 y)"
      by (subst uvarint_bytes.simps) simp
    have big: "128 \<le> unat y"
      using True by (simp add: uint64_ge_0x80)
    have i8: "i \<le> 8"
    proof (rule ccontr)
      assume "\<not> i \<le> 8"
      with "1.prems" have "i = 9" by simp
      with "1.prems" big show False by simp
    qed
    have e: "64 - 7 * i = 7 + (64 - 7 * (i + 1))"
      using i8 by simp
    have "unat y < 128 * 2 ^ (64 - 7 * (i + 1))"
      using "1.prems"(2) unfolding e by (simp add: power_add)
    then have small: "unat (drop_bit 7 y) < 2 ^ (64 - 7 * (i + 1))"
      by (simp add: unat_drop_bit_7 less_mult_imp_div_less mult.commute)
    have s: "s + 7 = 7 * (i + 1)"
      using "1.prems" by simp
    have i9: "i + 1 \<le> 9"
      using i8 by simp
    note IH = "1.IH" [OF True s small i9, of "acc OR push_bit s (y AND 0x7f)"]
    have eq: "(acc OR push_bit s (y AND 0x7f)) OR push_bit (s + 7) (drop_bit 7 y) =
        acc OR push_bit s y"
      by (simp only: or.assoc split_low7)
    have step: "Uvarint_loop (uvarint_bytes y) i acc s =
        Uvarint_loop (uvarint_bytes (drop_bit 7 y)) (i + 1)
          (acc OR push_bit s (y AND 0x7f)) (s + 7)"
      unfolding b
      by (simp only: Uvarint_loop.simps continuation_byte_not_less if_False
            low7_of_continuation)
    show ?thesis
      unfolding step IH eq by (simp add: b)
  qed
qed

lemma Uvarint_uvarint_bytes:
  "Uvarint (uvarint_bytes x) = (x, int (length (uvarint_bytes x)))"
proof -
  have "unat x < 2 ^ (64 - 7 * 0)"
    using unsigned_less [of x, where 'a = nat] by simp
  from Uvarint_loop_bytes [OF _ this, of 0 0] show ?thesis
    by (simp add: Uvarint_def)
qed

subsection \<open>Encoding, then decoding\<close>

lemma FormatNat_not_dash: "FormatNat m \<noteq> ''-''"
  using FormatNat_hd [of m] by (cases "FormatNat m") auto

lemma FormatUint_not_dash: "FormatUint u \<noteq> ''-''"
  by (simp add: FormatUint_def FormatNat_not_dash)

lemma FormatInt_not_dash: "FormatInt n \<noteq> ''-''"
  using FormatNat_hd [of "unat (- n)"]
  by (simp add: FormatInt_def FormatUint_def FormatNat_not_dash)

lemma EncodeToString_not_dash: "EncodeToString bs \<noteq> ''-''"
proof
  assume "EncodeToString bs = ''-''"
  then have "length (EncodeToString bs) = 1"
    by simp
  then show False
    by (simp add: length_EncodeToString)
qed

lemma dovarint_switch_to:
  assumes "ParseInt v 64 = (x, None)"
  shows "dovarint_switch ''-to'' v sg =
           Exit0 (Println (EncodeToString (uvarint_bytes
             (if sg then (if x <s 0 then NOT (push_bit 1 x) else push_bit 1 x) else x))))"
proof -
  let ?ux = "if sg then (if x <s 0 then NOT (push_bit 1 x) else push_bit 1 x) else x"
  obtain buf k where put: "PutUvarint (replicate 10 0) ?ux = Some (buf, k)"
    and bytes: "take k buf = uvarint_bytes ?ux"
    using PutUvarint_bytes [of ?ux] by blast
  have "(if sg then PutVarint (replicate 10 0) x else PutUvarint (replicate 10 0) x) =
      Some (buf, k)"
    using put by (cases sg; cases "x <s 0") (simp_all add: PutVarint_def Let_def)
  then show ?thesis
    using assms bytes by (simp add: dovarint_switch_def)
qed

lemma dovarint_switch_from:
  "dovarint_switch ''-from'' (EncodeToString (uvarint_bytes ux)) sg =
     Exit0 (Println
       (if sg then FormatInt (if ux AND 1 \<noteq> 0 then NOT (drop_bit 1 ux) else drop_bit 1 ux)
        else FormatUint ux))"
proof -
  have pos: "\<not> int (length (uvarint_bytes ux)) \<le> 0"
    using uvarint_bytes_nonempty [of ux] by simp
  show ?thesis
    using pos
    by (simp add: dovarint_switch_def mustDecodeHex_EncodeToString Varint_def
          Uvarint_uvarint_bytes Let_def)
qed

lemma main_varint:
  assumes "flag = ''-from'' \<or> flag = ''-to''" and "v \<noteq> ''-''"
  shows "main W [prog, ''varint'', flag, v] = dovarint_switch flag v True"
    and "main W [prog, ''uvarint'', flag, v] = dovarint_switch flag v False"
proof -
  have s: "subcommands ''varint'' =
      Some (mk_command Fn_varint ''decimal <-> hex'' ''[-from|-to] VAL'')"
    by (simp add: subcommands_def subcommands_literal_def)
  have u: "subcommands ''uvarint'' =
      Some (mk_command Fn_uvarint ''decimal <-> hex'' ''[-from|-to] VAL'')"
    by (simp add: subcommands_def subcommands_literal_def)
  have fn: "fn (mk_command f hl us) = f" for f hl us
    by (simp add: mk_command_def)
  have inp: "input [v] 0 False (stdin_read W) = Inr (v, False)"
    using assms(2) by (simp add: input_def)
  show "main W [prog, ''varint'', flag, v] = dovarint_switch flag v True"
    by (simp add: main_dispatch [OF s] fn varint_def dovarint_flag [OF assms(1) inp])
  show "main W [prog, ''uvarint'', flag, v] = dovarint_switch flag v False"
    by (simp add: main_dispatch [OF u] fn uvarint_def dovarint_flag [OF assms(1) inp])
qed

lemma char_of_decimal_digits:
  "char_of (48 :: nat) = CHR ''0''" "char_of (49 :: nat) = CHR ''1''"
  "char_of (50 :: nat) = CHR ''2''" "char_of (51 :: nat) = CHR ''3''"
  "char_of (52 :: nat) = CHR ''4''" "char_of (53 :: nat) = CHR ''5''"
  "char_of (54 :: nat) = CHR ''6''" "char_of (55 :: nat) = CHR ''7''"
  "char_of (56 :: nat) = CHR ''8''" "char_of (57 :: nat) = CHR ''9''"
  by code_simp+

text \<open>
  C1, as the code has it.  For every signed 64-bit integer \<open>n\<close>, \<open>varint -to\<close> on the
  decimal text of \<open>n\<close> prints a hex string, and \<open>varint -from\<close> on that hex string prints
  the decimal text of \<open>n\<close> again.  The same holds for \<open>uvarint\<close> and every unsigned
  integer below \<open>2 ^ 63\<close>, the values that the signed 64-bit parse of \<open>-to\<close> accepts.
\<close>

theorem varint_round_trip:
  "(\<exists>h. main W [prog, ''varint'', ''-to'', FormatInt n] = Exit0 (Println h)
       \<and> main W [prog, ''varint'', ''-from'', h] = Exit0 (Println (FormatInt n)))
   \<and> (unat u < 2 ^ 63 \<longrightarrow>
        (\<exists>h. main W [prog, ''uvarint'', ''-to'', FormatUint u] = Exit0 (Println h)
            \<and> main W [prog, ''uvarint'', ''-from'', h] = Exit0 (Println (FormatUint u))))"
proof (intro conjI impI)
  let ?zz = "if n <s 0 then NOT (push_bit 1 n) else push_bit 1 n"
  let ?h = "EncodeToString (uvarint_bytes ?zz)"
  have enc: "main W [prog, ''varint'', ''-to'', FormatInt n] = Exit0 (Println ?h)"
    using dovarint_switch_to [OF ParseInt_FormatInt, of n True]
    by (simp add: main_varint(1) FormatInt_not_dash)
  have "main W [prog, ''varint'', ''-from'', ?h] =
      Exit0 (Println (FormatInt (if ?zz AND 1 \<noteq> 0 then NOT (drop_bit 1 ?zz)
                                 else drop_bit 1 ?zz)))"
    using dovarint_switch_from [of ?zz True]
    by (simp only: main_varint(1) [OF disjI1 [OF refl] EncodeToString_not_dash] if_True)
  then have dec: "main W [prog, ''varint'', ''-from'', ?h] = Exit0 (Println (FormatInt n))"
    by (simp only: Varint_zigzag)
  from enc dec
  show "\<exists>h. main W [prog, ''varint'', ''-to'', FormatInt n] = Exit0 (Println h)
      \<and> main W [prog, ''varint'', ''-from'', h] = Exit0 (Println (FormatInt n))"
    by blast
next
  assume small: "unat u < 2 ^ 63"
  let ?h = "EncodeToString (uvarint_bytes u)"
  have enc: "main W [prog, ''uvarint'', ''-to'', FormatUint u] = Exit0 (Println ?h)"
    using dovarint_switch_to [OF ParseInt_FormatUint [OF small], of False]
    by (simp add: main_varint(2) FormatUint_not_dash)
  have dec: "main W [prog, ''uvarint'', ''-from'', ?h] = Exit0 (Println (FormatUint u))"
    using dovarint_switch_from [of u False]
    by (simp add: main_varint(2) EncodeToString_not_dash)
  from enc dec
  show "\<exists>h. main W [prog, ''uvarint'', ''-to'', FormatUint u] = Exit0 (Println h)
      \<and> main W [prog, ''uvarint'', ''-from'', h] = Exit0 (Println (FormatUint u))"
    by blast
qed

theorem varint_round_trip_witness:
  "main toy_world [''multitool'', ''varint'', ''-to'', ''-3''] = Exit0 (Println ''05'')
   \<and> main toy_world [''multitool'', ''varint'', ''-from'', ''05''] = Exit0 (Println ''-3'')
   \<and> unat (300 :: uint64) < 2 ^ 63
   \<and> main toy_world [''multitool'', ''uvarint'', ''-to'', ''300''] = Exit0 (Println ''ac02'')
   \<and> main toy_world [''multitool'', ''uvarint'', ''-from'', ''ac02''] = Exit0 (Println ''300'')"
proof -
  have f1: "FormatInt (- 3) = ''-3''"
    by (simp add: FormatInt_def FormatUint_def FormatNat.simps char_of_decimal_digits
          word_sless_alt)
  have f2: "FormatUint 300 = ''300''"
    by (simp add: FormatUint_def FormatNat.simps char_of_decimal_digits)
  have small: "unat (300 :: uint64) < 2 ^ 63"
    by simp
  have e1: "main toy_world [''multitool'', ''varint'', ''-to'', ''-3''] = Exit0 (Println ''05'')"
  proof -
    have "dovarint_switch ''-to'' ''-3'' True = Exit0 (Println ''05'')"
      by code_simp
    then show ?thesis
      by (simp add: main_varint(1))
  qed
  have e2: "main toy_world [''multitool'', ''uvarint'', ''-to'', ''300''] =
      Exit0 (Println ''ac02'')"
    by (simp add: main_varint(2) uvarint_to_300)
  from varint_round_trip [of toy_world "''multitool''" "- 3" 300] small
  obtain h1 h2
    where a: "main toy_world [''multitool'', ''varint'', ''-to'', FormatInt (- 3)] =
        Exit0 (Println h1)"
      and b: "main toy_world [''multitool'', ''varint'', ''-from'', h1] =
        Exit0 (Println (FormatInt (- 3)))"
      and c: "main toy_world [''multitool'', ''uvarint'', ''-to'', FormatUint 300] =
        Exit0 (Println h2)"
      and d: "main toy_world [''multitool'', ''uvarint'', ''-from'', h2] =
        Exit0 (Println (FormatUint 300))"
    by blast
  from a e1 have h1: "h1 = ''05''"
    by (simp add: f1 Println_def)
  from c e2 have h2: "h2 = ''ac02''"
    by (simp add: f2 Println_def)
  from b d show ?thesis
    unfolding h1 h2 f1 f2 using e1 e2 small by simp
qed

text \<open>
  The unsigned 64-bit integer \<open>2 ^ 63\<close>, written in decimal, is rejected by
  \<open>uvarint -to\<close>: the run ends with the fatal error \<open>could not parse base 10 int\<close>, so
  there is no hex to decode.
\<close>

theorem varint_round_trip_counterexample:
  "unat (9223372036854775808 :: uint64) = 2 ^ 63
   \<and> FormatUint 9223372036854775808 = ''9223372036854775808''
   \<and> main toy_world [''multitool'', ''uvarint'', ''-to'', ''9223372036854775808''] =
       Exit1 (Println ''could not parse base 10 int'')"
proof -
  have f: "FormatUint 9223372036854775808 = ''9223372036854775808''"
    by (simp add: FormatUint_def FormatNat.simps char_of_decimal_digits)
  have "snd (ParseInt (FormatUint 9223372036854775808) 64) = Some ErrRange"
    by (rule ParseInt_FormatUint_range) simp
  then obtain x where "ParseInt ''9223372036854775808'' 64 = (x, Some ErrRange)"
    unfolding f by (cases "ParseInt ''9223372036854775808'' 64") simp
  then have "dovarint_switch ''-to'' ''9223372036854775808'' False =
      Exit1 (Println ''could not parse base 10 int'')"
    by (simp add: dovarint_switch_def errorf_def)
  then show ?thesis
    using f by (simp add: main_varint(2))
qed

end
